theory Spec2Isabelle
  imports Main "HOL-Library.AList"
begin

section \<open>JavaScript values, objects and errors\<close>

text \<open>
  The development embeds \<^verbatim>\<open>src/orm/hasura.js\<close> (class \<^verbatim>\<open>Hasura\<close>).

  A JavaScript object is modelled by the list of its own enumerable string-keyed
  properties, in the order \<^verbatim>\<open>Object.keys\<close> enumerates them; keys of one object are
  pairwise different. Members inherited from built-in prototypes (\<^verbatim>\<open>toString\<close>,
  \<^verbatim>\<open>Array.prototype.map\<close>, ...) and the key \<^verbatim>\<open>__proto__\<close> are not modelled: a read
  of a key that is not an own property yields \<^verbatim>\<open>undefined\<close>. Numbers are carried as
  integers and strings as lists of ASCII characters; the code under study only moves
  such values around.
\<close>

type_synonym 'v js_obj = "(string \<times> 'v) list"

datatype jv =
    JUndefined
  | JNull
  | JBool bool
  | JNum int
  | JStr string
  | JArr "jv list"
  | JObj "(string \<times> jv) list"

text \<open>
  \<open>Error m\<close> is \<^verbatim>\<open>new Error(m)\<close> thrown by the source itself; \<open>TypeError\<close> is the
  engine's exception for a property read on \<^verbatim>\<open>undefined\<close>/\<^verbatim>\<open>null\<close> or a call of a
  non-function; \<open>External m\<close> is an error value produced by a collaborator (the
  transport, or a method of the Table class).
\<close>

datatype js_error = Error string | TypeError | External string

text \<open>What a call does: it returns a value or it throws (an async function rejects).\<close>

datatype 'a completion = Return 'a | Throw js_error

text \<open>The result arrays of the public methods: \<^verbatim>\<open>[err]\<close> and \<^verbatim>\<open>[null, value]\<close>.\<close>

datatype result = Err js_error | Ok jv

subsection \<open>Property order of ordinary objects\<close>

text \<open>
  \<^verbatim>\<open>Object.keys\<close>/\<^verbatim>\<open>Object.values\<close> list the keys that are array indices (canonical
  decimal numerals below \<open>2^32 - 1\<close>) first, in ascending numeric order, and then
  every other string key in the order of its first assignment. An assignment to an
  existing key keeps the key's place and replaces its value.
\<close>

definition is_digit :: "char \<Rightarrow> bool" where
  "is_digit c = (c \<in> set ''0123456789'')"

fun dec_val :: "nat \<Rightarrow> string \<Rightarrow> nat" where
  "dec_val acc [] = acc"
| "dec_val acc (c # cs) = dec_val (acc * 10 + (of_char c - 48)) cs"

definition is_array_index :: "string \<Rightarrow> bool" where
  "is_array_index s =
     (s \<noteq> [] \<and> list_all is_digit s \<and> (if hd s = CHR ''0'' then s = ''0'' else True)
      \<and> dec_val 0 s < 4294967295)"

fun insert_index :: "nat \<Rightarrow> string \<Rightarrow> 'v \<Rightarrow> 'v js_obj \<Rightarrow> 'v js_obj" where
  "insert_index n k v [] = [(k, v)]"
| "insert_index n k v (p # ps) =
     (if is_array_index (fst p) \<and> dec_val 0 (fst p) < n
      then p # insert_index n k v ps
      else (k, v) # p # ps)"

text \<open>The assignment \<^verbatim>\<open>ob[k] = v\<close> on an ordinary object.\<close>

definition obj_set :: "'v js_obj \<Rightarrow> string \<Rightarrow> 'v \<Rightarrow> 'v js_obj" where
  "obj_set ob k v =
     (if k \<in> set (map fst ob) then AList.update k v ob
      else if is_array_index k then insert_index (dec_val 0 k) k v ob
      else ob @ [(k, v)])"

definition Object_keys :: "'v js_obj \<Rightarrow> string list" where
  "Object_keys ob = map fst ob"

definition Object_values :: "'v js_obj \<Rightarrow> 'v list" where
  "Object_values ob = map snd ob"

text \<open>
  \<^verbatim>\<open>Object.assign({}, a, b)\<close>: a new object receives the properties of \<open>a\<close> and then
  those of \<open>b\<close>, each by an assignment.
\<close>

definition Object_assign :: "'v js_obj \<Rightarrow> 'v js_obj \<Rightarrow> 'v js_obj" where
  "Object_assign a b = foldl (\<lambda>target (k, v). obj_set target k v) [] (a @ b)"

text \<open>
  The object that the literal \<^verbatim>\<open>{ k1: v1, ..., kn: vn }\<close> evaluates to: the properties
  are defined one after the other in the order in which they are written.
\<close>

definition object_literal :: "(string \<times> 'v) list \<Rightarrow> 'v js_obj" where
  "object_literal entries = foldl (\<lambda>ob (k, v). obj_set ob k v) [] entries"

text \<open>The property read \<^verbatim>\<open>o[i]\<close>.\<close>

fun get_prop :: "jv \<Rightarrow> string \<Rightarrow> js_error + jv" where
  "get_prop JUndefined i = Inl TypeError"
| "get_prop JNull i = Inl TypeError"
| "get_prop (JObj kvs) i = Inr (case map_of kvs i of None \<Rightarrow> JUndefined | Some v \<Rightarrow> v)"
| "get_prop (JArr xs) i =
     Inr (if is_array_index i \<and> dec_val 0 i < length xs then xs ! dec_val 0 i
          else if i = ''length'' then JNum (int (length xs))
          else JUndefined)"
| "get_prop (JStr s) i =
     Inr (if is_array_index i \<and> dec_val 0 i < length s then JStr [s ! dec_val 0 i]
          else if i = ''length'' then JNum (int (length s))
          else JUndefined)"
| "get_prop (JBool b) i = Inr JUndefined"
| "get_prop (JNum n) i = Inr JUndefined"

subsection \<open>Strings\<close>

text \<open>\<^verbatim>\<open>s.split(d)\<close> for a one-character separator: never the empty array.\<close>

fun split_on :: "char \<Rightarrow> string \<Rightarrow> string list" where
  "split_on d [] = [[]]"
| "split_on d (c # cs) =
     (if c = d then [] # split_on d cs
      else (case split_on d cs of [] \<Rightarrow> [[c]] | w # ws \<Rightarrow> (c # w) # ws))"

text \<open>\<^verbatim>\<open>xs.join(sep)\<close> on an array of strings.\<close>

fun join :: "string \<Rightarrow> string list \<Rightarrow> string" where
  "join sep [] = []"
| "join sep [x] = x"
| "join sep (x # y # ys) = x @ sep @ join sep (y # ys)"

section \<open>The catalog\<close>

text \<open>
  Modelled from the spec: the class \<^verbatim>\<open>Table\<close> (\<^verbatim>\<open>src/orm/table.js\<close>) is not among the
  sources. Section 3 of the spec gives a Table a name, a type, a map of fields and an
  ordered primary key, the last two filled incrementally after creation; the
  constructor receives the name and the type only.
\<close>

record Field =
  field_name :: string
  field_type :: string
  field_udt :: string

record Table =
  table_name :: string
  table_type :: string
  table_fields :: "Field js_obj"
  table_primaryKey :: "string list"

definition new_Table :: "string \<Rightarrow> string \<Rightarrow> Table" where
  "new_Table name type =
     \<lparr>table_name = name, table_type = type, table_fields = [], table_primaryKey = []\<rparr>"

text \<open>
  \<^verbatim>\<open>table(name)\<close>, lines 96-100: throws when \<^verbatim>\<open>this.tables[name]\<close> is undefined.
\<close>

definition table_not_found :: "string \<Rightarrow> js_error" where
  "table_not_found name = Error (''table '' @ name @ '' not found'')"

definition table :: "Table js_obj \<Rightarrow> string \<Rightarrow> js_error + Table" where
  "table tables name =
     (case map_of tables name of
        None \<Rightarrow> Inl (table_not_found name)
      | Some t \<Rightarrow> Inr t)"

text \<open>
  \<^verbatim>\<open>createTable({ name, type })\<close>, lines 102-104: an unconditional assignment
  \<^verbatim>\<open>this.tables[name] = new Table({ name, type })\<close>. The catalog after the call is
  returned.
\<close>

definition createTable :: "Table js_obj \<Rightarrow> string \<Rightarrow> string \<Rightarrow> Table js_obj" where
  "createTable tables name type = obj_set tables name (new_Table name type)"

section \<open>Per-table builds\<close>

text \<open>
  What \<^verbatim>\<open>Table.buildQuery\<close> and each element of \<^verbatim>\<open>Table.buildMutation\<close> return, with
  the members the composer reads: \<^verbatim>\<open>built.query.name\<close>, \<^verbatim>\<open>built.query.variables\<close>,
  \<^verbatim>\<open>built.query.fields\<close>, \<^verbatim>\<open>built.query.fragment.fragmentName\<close>,
  \<^verbatim>\<open>built.query.fragment.fragment\<close>, \<^verbatim>\<open>built.query.flatSetting\<close> (mutations only; an
  object \<^verbatim>\<open>{ request_path: hasura_path }\<close>) and \<^verbatim>\<open>built.variables\<close>.
\<close>

record built =
  query_name :: string
  query_variables :: "string list"
  query_fields :: string
  fragmentName :: string
  fragment :: string
  flatSetting :: "string js_obj"
  built_variables :: "jv js_obj"

text \<open>
  The two builder methods of the Table class are not among the sources; they are
  parameters of the model. \<open>'p\<close> is the type of the caller's per-table parameters
  \<^verbatim>\<open>params[tableName]\<close>; the table name and the query type are the members the
  composer adds to them. A builder may throw.
\<close>

type_synonym 'p query_builder = "Table \<Rightarrow> 'p \<Rightarrow> string \<Rightarrow> string \<Rightarrow> js_error + built"

type_synonym 'p mutation_builder = "Table \<Rightarrow> 'p \<Rightarrow> string \<Rightarrow> js_error + built list"

section \<open>Composition of one document\<close>

text \<open>The local variables of \<^verbatim>\<open>buildQuery\<close> and \<^verbatim>\<open>buildMutation\<close>.\<close>

record composition =
  queryName :: "string list"
  queryVariables :: "string list"
  queryFields :: "string list"
  queryFragments :: "string js_obj"
  queryFlatSetting :: "string js_obj list"
  variables :: "jv js_obj"

definition empty_composition :: composition where
  "empty_composition =
     \<lparr>queryName = [], queryVariables = [], queryFields = [], queryFragments = [],
      queryFlatSetting = [], variables = []\<rparr>"

text \<open>Lines 156-160: the body of the loop of \<^verbatim>\<open>buildQuery\<close> after the build.\<close>

definition query_push :: "built \<Rightarrow> composition \<Rightarrow> composition" where
  "query_push b acc =
     acc\<lparr>queryName := queryName acc @ [query_name b],
         queryVariables := queryVariables acc @ query_variables b,
         queryFields := queryFields acc @ [query_fields b],
         queryFragments := obj_set (queryFragments acc) (fragmentName b) (fragment b),
         variables := Object_assign (variables acc) (built_variables b)\<rparr>"

text \<open>Lines 149-161: \<^verbatim>\<open>tables.forEach\<close> over \<^verbatim>\<open>Object.keys(params)\<close>.\<close>

fun buildQuery_forEach ::
  "Table js_obj \<Rightarrow> 'p query_builder \<Rightarrow> string \<Rightarrow> 'p js_obj \<Rightarrow> composition
     \<Rightarrow> js_error + composition" where
  "buildQuery_forEach tables tbq queryType [] acc = Inr acc"
| "buildQuery_forEach tables tbq queryType ((tableName, p) # rest) acc =
     (case table tables tableName of
        Inl err \<Rightarrow> Inl err
      | Inr t \<Rightarrow>
          (case tbq t p tableName queryType of
             Inl err \<Rightarrow> Inl err
           | Inr b \<Rightarrow> buildQuery_forEach tables tbq queryType rest (query_push b acc)))"

text \<open>Lines 163-168: the template literal of \<^verbatim>\<open>buildQuery\<close>.\<close>

definition query_text :: "string \<Rightarrow> composition \<Rightarrow> string" where
  "query_text queryType acc =
     ''\<newline>            '' @ join ''\<newline>'' (Object_values (queryFragments acc))
     @ ''\<newline>            '' @ queryType @ '' '' @ join ''_'' (queryName acc) @ '' ''
     @ (if length (queryVariables acc) \<noteq> 0
        then ''('' @ join '', '' (queryVariables acc) @ '')'' else [])
     @ '' {\<newline>                '' @ join ''\<newline>'' (queryFields acc)
     @ ''\<newline>            }\<newline>        ''"

definition buildQuery ::
  "Table js_obj \<Rightarrow> 'p query_builder \<Rightarrow> 'p js_obj \<Rightarrow> string
     \<Rightarrow> js_error + (string \<times> jv js_obj)" where
  "buildQuery tables tbq params queryType =
     (case buildQuery_forEach tables tbq queryType params empty_composition of
        Inl err \<Rightarrow> Inl err
      | Inr acc \<Rightarrow> Inr (query_text queryType acc, variables acc))"

text \<open>Lines 249-254: the body of the inner loop of \<^verbatim>\<open>buildMutation\<close>.\<close>

definition mutation_push :: "built \<Rightarrow> composition \<Rightarrow> composition" where
  "mutation_push b acc =
     acc\<lparr>queryName := queryName acc @ [query_name b],
         queryVariables := queryVariables acc @ query_variables b,
         queryFields := queryFields acc @ [query_fields b],
         queryFragments := obj_set (queryFragments acc) (fragmentName b) (fragment b),
         queryFlatSetting := queryFlatSetting acc @ [flatSetting b],
         variables := Object_assign (variables acc) (built_variables b)\<rparr>"

text \<open>
  Lines 242-256. The table is read as \<^verbatim>\<open>this.tables[tableName]\<close>, without
  \<^verbatim>\<open>table()\<close>: for an unknown name the method call on \<^verbatim>\<open>undefined\<close> is a TypeError.
\<close>

fun buildMutation_forEach ::
  "Table js_obj \<Rightarrow> 'p mutation_builder \<Rightarrow> 'p js_obj \<Rightarrow> composition
     \<Rightarrow> js_error + composition" where
  "buildMutation_forEach tables tbm [] acc = Inr acc"
| "buildMutation_forEach tables tbm ((tableName, p) # rest) acc =
     (case map_of tables tableName of
        None \<Rightarrow> Inl TypeError
      | Some t \<Rightarrow>
          (case tbm t p tableName of
             Inl err \<Rightarrow> Inl err
           | Inr builts \<Rightarrow>
               buildMutation_forEach tables tbm rest
                 (foldl (\<lambda>a b. mutation_push b a) acc builts)))"

text \<open>Lines 258-263: the template literal of \<^verbatim>\<open>buildMutation\<close>.\<close>

definition mutation_text :: "composition \<Rightarrow> string" where
  "mutation_text acc =
     ''\<newline>            '' @ join ''\<newline>'' (Object_values (queryFragments acc))
     @ ''\<newline>            mutation '' @ join ''_'' (queryName acc)
     @ '' ('' @ join '', '' (queryVariables acc) @ '') {\<newline>                ''
     @ join ''\<newline>'' (queryFields acc)
     @ ''\<newline>            }\<newline>        ''"

definition buildMutation ::
  "Table js_obj \<Rightarrow> 'p mutation_builder \<Rightarrow> 'p js_obj
     \<Rightarrow> js_error + (string \<times> jv js_obj \<times> string js_obj list)" where
  "buildMutation tables tbm params =
     (case buildMutation_forEach tables tbm params empty_composition of
        Inl err \<Rightarrow> Inl err
      | Inr acc \<Rightarrow> Inr (mutation_text acc, variables acc, queryFlatSetting acc))"

section \<open>Execution\<close>

text \<open>
  The execution transport \<^verbatim>\<open>this.$gql.run({ query, variables })\<close> is a parameter: it
  answers \<open>Inl err\<close> for a pair \<^verbatim>\<open>[err, _]\<close> with a truthy \<^verbatim>\<open>err\<close> and \<open>Inr response\<close>
  otherwise. Every public method returns, beside its completion, the list of the
  requests it handed to the transport.
\<close>

type_synonym gql_transport = "string \<Rightarrow> jv js_obj \<Rightarrow> js_error + jv"

text \<open>The option \<^verbatim>\<open>{ flatOne = true } = {}\<close>: \<open>None\<close> when the caller leaves it out.\<close>

definition flatOne_of :: "bool option \<Rightarrow> bool" where
  "flatOne_of opt = (case opt of None \<Rightarrow> True | Some b \<Rightarrow> b)"

text \<open>\<^verbatim>\<open>query(params, { flatOne })\<close>, lines 120-137.\<close>

definition query ::
  "Table js_obj \<Rightarrow> 'p query_builder \<Rightarrow> gql_transport \<Rightarrow> 'p js_obj \<Rightarrow> bool option
     \<Rightarrow> result completion \<times> (string \<times> jv js_obj) list" where
  "query tables tbq gql_run params flatOne =
     (case buildQuery tables tbq params ''query'' of
        Inl err \<Rightarrow> (Return (Err err), [])
      | Inr (q, vars) \<Rightarrow>
          (case gql_run q vars of
             Inl err \<Rightarrow> (Return (Err err), [(q, vars)])
           | Inr response \<Rightarrow>
               (if length (Object_keys params) = 1 \<and> flatOne_of flatOne
                then (case get_prop response (hd (Object_keys params)) of
                        Inl e \<Rightarrow> (Throw e, [(q, vars)])
                      | Inr v \<Rightarrow> (Return (Ok v), [(q, vars)]))
                else (Return (Ok response), [(q, vars)]))))"

text \<open>Line 222: \<^verbatim>\<open>segments.reduce((o, i) => o[i], response)\<close>.\<close>

fun reduce_path :: "jv \<Rightarrow> string list \<Rightarrow> js_error + jv" where
  "reduce_path ob [] = Inr ob"
| "reduce_path ob (i # rest) =
     (case get_prop ob i of Inl e \<Rightarrow> Inl e | Inr v \<Rightarrow> reduce_path v rest)"

text \<open>
  Modelled from the spec: the helper \<^verbatim>\<open>__.objectFromPath(obj, path, value)\<close>
  (\<^verbatim>\<open>src/utils/helpers.js\<close>) is not among the sources. Section 4.5 of the spec: the
  value is written into the result object at the caller path's dot-segments,
  "creating intermediate nested containers as needed". An intermediate key that does
  not hold an object gets a fresh one.
\<close>

fun set_path :: "jv js_obj \<Rightarrow> string list \<Rightarrow> jv \<Rightarrow> jv js_obj" where
  "set_path ob [] v = ob"
| "set_path ob [k] v = obj_set ob k v"
| "set_path ob (k # k' # ks) v =
     obj_set ob k
       (JObj (set_path (case map_of ob k of Some (JObj c) \<Rightarrow> c | _ \<Rightarrow> []) (k' # ks) v))"

definition objectFromPath :: "jv js_obj \<Rightarrow> string \<Rightarrow> jv \<Rightarrow> jv js_obj" where
  "objectFromPath obj path v = set_path obj (split_on CHR ''.'' path) v"

text \<open>
  Lines 216-226: \<^verbatim>\<open>flatSettings.forEach\<close>. \<^verbatim>\<open>Object.entries(flat)[0]\<close> of an empty
  object is \<^verbatim>\<open>undefined\<close>, and the read \<^verbatim>\<open>flat[1]\<close> then throws.
\<close>

fun remap_forEach :: "jv \<Rightarrow> string js_obj list \<Rightarrow> jv js_obj \<Rightarrow> js_error + jv js_obj" where
  "remap_forEach response [] toReturn = Inr toReturn"
| "remap_forEach response (flat # rest) toReturn =
     (case flat of
        [] \<Rightarrow> Inl TypeError
      | (request_path, hasura_path) # _ \<Rightarrow>
          (case reduce_path response (split_on CHR ''.'' hasura_path) of
             Inl e \<Rightarrow> Inl e
           | Inr v \<Rightarrow>
               remap_forEach response rest (objectFromPath toReturn request_path v)))"

text \<open>
  \<^verbatim>\<open>mutate(params)\<close>, lines 199-229. Only \<^verbatim>\<open>buildMutation\<close> runs inside the
  \<^verbatim>\<open>try\<close> block; an exception of the remapping loop leaves the method.
\<close>

definition mutate ::
  "Table js_obj \<Rightarrow> 'p mutation_builder \<Rightarrow> gql_transport \<Rightarrow> 'p js_obj
     \<Rightarrow> result completion \<times> (string \<times> jv js_obj) list" where
  "mutate tables tbm gql_run params =
     (case buildMutation tables tbm params of
        Inl err \<Rightarrow> (Return (Err err), [])
      | Inr (q, vars, flatSettings) \<Rightarrow>
          (case gql_run q vars of
             Inl err \<Rightarrow> (Return (Err err), [(q, vars)])
           | Inr response \<Rightarrow>
               (case remap_forEach response flatSettings [] of
                  Inl e \<Rightarrow> (Throw e, [(q, vars)])
                | Inr toReturn \<Rightarrow> (Return (Ok (JObj toReturn)), [(q, vars)]))))"

text \<open>
  \<^verbatim>\<open>subscribe(params, callback, { flatOne })\<close>, lines 268-285. The live transport
  \<^verbatim>\<open>this.$ws.run\<close> is a parameter; it receives the document, the variables, the
  callback and \<^verbatim>\<open>settings.flatOne\<close> (the single table's key, or \<^verbatim>\<open>false\<close>, here
  \<open>None\<close>) and answers a handle. The method returns either the array \<^verbatim>\<open>[err]\<close> or
  that handle.
\<close>

datatype 'h subscription = ErrorArray js_error | Unsubscribe 'h

definition subscribe ::
  "Table js_obj \<Rightarrow> 'p query_builder
     \<Rightarrow> (string \<Rightarrow> jv js_obj \<Rightarrow> 'cb \<Rightarrow> string option \<Rightarrow> 'h)
     \<Rightarrow> 'p js_obj \<Rightarrow> 'cb \<Rightarrow> bool option \<Rightarrow> 'h subscription" where
  "subscribe tables tbq ws_run params callback flatOne =
     (case buildQuery tables tbq params ''subscription'' of
        Inl err \<Rightarrow> ErrorArray err
      | Inr (q, vars) \<Rightarrow>
          Unsubscribe
            (ws_run q vars callback
               (if length (Object_keys params) = 1 \<and> flatOne_of flatOne
                then Some (hd (Object_keys params)) else None)))"

section \<open>Describing the builds of one call\<close>

text \<open>
  \<open>query_built\<close> holds of a table's entry in \<^verbatim>\<open>params\<close> and a build when the table is
  in the catalog and the builder answers that build for it; \<open>mutation_built\<close> is the
  same for the list of builds \<^verbatim>\<open>Table.buildMutation\<close> answers.
\<close>

definition query_built ::
  "Table js_obj \<Rightarrow> 'p query_builder \<Rightarrow> string \<Rightarrow> string \<times> 'p \<Rightarrow> built \<Rightarrow> bool" where
  "query_built tables tbq queryType tp b =
     (case table tables (fst tp) of
        Inl e \<Rightarrow> False
      | Inr t \<Rightarrow> tbq t (snd tp) (fst tp) queryType = Inr b)"

definition mutation_built ::
  "Table js_obj \<Rightarrow> 'p mutation_builder \<Rightarrow> string \<times> 'p \<Rightarrow> built list \<Rightarrow> bool" where
  "mutation_built tables tbm tp builts =
     (case map_of tables (fst tp) of
        None \<Rightarrow> False
      | Some t \<Rightarrow> tbm t (snd tp) (fst tp) = Inr builts)"

text \<open>
  What the assignments of lines 159-160 (252 and 254) leave in \<^verbatim>\<open>queryFragments\<close> and
  \<^verbatim>\<open>variables\<close> after the builds \<open>bs\<close>, taken in order.
\<close>

definition merged_fragments :: "built list \<Rightarrow> string js_obj" where
  "merged_fragments bs = foldl (\<lambda>frs b. obj_set frs (fragmentName b) (fragment b)) [] bs"

definition merged_variables :: "built list \<Rightarrow> jv js_obj" where
  "merged_variables bs = foldl (\<lambda>vs b. Object_assign vs (built_variables b)) [] bs"

section \<open>Describing the remapping\<close>

text \<open>
  \<open>obj_at ob ks\<close> is the value reached from \<open>ob\<close> along the keys \<open>ks\<close> when every
  step but the last starts at an object that has the key as an own property.
\<close>

fun obj_at :: "jv \<Rightarrow> string list \<Rightarrow> jv option" where
  "obj_at ob [] = Some ob"
| "obj_at (JObj kvs) (k # ks) =
     (case map_of kvs k of None \<Rightarrow> None | Some c \<Rightarrow> obj_at c ks)"
| "obj_at ob (k # ks) = None"

text \<open>Two paths are comparable when one is a prefix of the other.\<close>

fun comparable :: "string list \<Rightarrow> string list \<Rightarrow> bool" where
  "comparable [] ks = True"
| "comparable (k # ks) [] = True"
| "comparable (k # ks) (k' # ks') = (k = k' \<and> comparable ks ks')"

fun separate_paths :: "string list list \<Rightarrow> bool" where
  "separate_paths [] = True"
| "separate_paths (ks # rest) =
     (list_all (\<lambda>ks'. \<not> comparable ks ks') rest \<and> separate_paths rest)"

text \<open>
  \<open>resolves response flat (cp, v)\<close>: the first entry of the flat setting has the
  caller path \<open>cp\<close>, and the walk of line 222 along its endpoint path ends at \<open>v\<close>.
\<close>

definition resolves :: "jv \<Rightarrow> string js_obj \<Rightarrow> string \<times> jv \<Rightarrow> bool" where
  "resolves response flat cv =
     (case flat of
        [] \<Rightarrow> False
      | (request_path, hasura_path) # _ \<Rightarrow>
          request_path = fst cv
          \<and> reduce_path response (split_on CHR ''.'' hasura_path) = Inr (snd cv))"

text \<open>The writes of line 225 for the resolved pairs, in order, on \<open>toReturn\<close>.\<close>

definition write_all :: "jv js_obj \<Rightarrow> (string \<times> jv) list \<Rightarrow> jv js_obj" where
  "write_all toReturn pairs = foldl (\<lambda>acc (cp, v). objectFromPath acc cp v) toReturn pairs"

section \<open>Example inputs\<close>

text \<open>
  Concrete catalogs, builders and transports at which the theorems below are
  instantiated. The builders stand in for the methods of the Table class; they are
  examples of what a builder may answer, not a model of that class.
\<close>

definition example_tables :: "Table js_obj" where
  "example_tables =
     [(''users'', new_Table ''users'' ''BASE TABLE''),
      (''posts'', new_Table ''posts'' ''BASE TABLE''),
      (''tags'', new_Table ''tags'' ''VIEW'')]"

definition numbered_tables :: "Table js_obj" where
  "numbered_tables =
     [(''7'', new_Table ''7'' ''BASE TABLE''),
      (''users'', new_Table ''users'' ''BASE TABLE'')]"

definition variable_build :: "string \<Rightarrow> built" where
  "variable_build tableName =
     \<lparr>query_name = tableName,
      query_variables = [''$'' @ tableName @ ''_limit: Int''],
      query_fields = tableName @ '' { id }'',
      fragmentName = tableName @ ''_fields'',
      fragment = ''fragment '' @ tableName,
      flatSetting = [],
      built_variables = [(tableName @ ''_limit'', JNum 10)]\<rparr>"

definition plain_build :: "string \<Rightarrow> built" where
  "plain_build tableName =
     \<lparr>query_name = tableName,
      query_variables = [],
      query_fields = tableName @ '' { id }'',
      fragmentName = tableName @ ''_fields'',
      fragment = ''fragment '' @ tableName,
      flatSetting = [],
      built_variables = []\<rparr>"

definition insert_build :: "string \<Rightarrow> built" where
  "insert_build tableName =
     \<lparr>query_name = ''insert_'' @ tableName,
      query_variables = [],
      query_fields = ''insert_'' @ tableName @ '' { returning { id } }'',
      fragmentName = tableName @ ''_fields'',
      fragment = ''fragment '' @ tableName,
      flatSetting = [(tableName @ ''.insert'', ''insert_'' @ tableName @ ''.returning'')],
      built_variables = []\<rparr>"

definition example_query_builder :: "unit query_builder" where
  "example_query_builder t p tableName queryType = Inr (variable_build tableName)"

definition example_plain_builder :: "unit query_builder" where
  "example_plain_builder t p tableName queryType = Inr (plain_build tableName)"

definition example_mutation_builder :: "unit mutation_builder" where
  "example_mutation_builder t p tableName = Inr [insert_build tableName]"

definition example_ws ::
  "string \<Rightarrow> jv js_obj \<Rightarrow> unit \<Rightarrow> string option \<Rightarrow> string option" where
  "example_ws q vars callback flat = flat"



definition example_response :: jv where
  "example_response =
     JObj [(''users'', JArr [JObj [(''id'', JNum 1)]]), (''posts'', JArr [])]"

definition example_transport :: gql_transport where
  "example_transport q vars = Inr example_response"

definition insert_user_response :: jv where
  "insert_user_response =
     JObj [(''insert_user'', JObj [(''returning'', JArr [JObj [(''id'', JNum 1)]])])]"

definition insert_user_transport :: gql_transport where
  "insert_user_transport q vars = Inr insert_user_response"



definition user_table :: Table where
  "user_table =
     \<lparr>table_name = ''user'', table_type = ''BASE TABLE'',
      table_fields =
        [(''id'', \<lparr>field_name = ''id'', field_type = ''integer'', field_udt = ''int4''\<rparr>)],
      table_primaryKey = [''id'']\<rparr>"

section \<open>Properties\<close>

subsection \<open>Objects\<close>

lemma split_on_nonempty: "split_on d s \<noteq> []"
  by (induction s) (auto split: list.splits)

lemma map_of_insert_index:
  "k \<notin> fst ` set ob \<Longrightarrow> map_of (insert_index n k v ob) = (map_of ob)(k \<mapsto> v)"
  by (induction ob) (auto simp: fun_eq_iff)

lemma map_of_snoc:
  "k \<notin> fst ` set ob \<Longrightarrow> map_of (ob @ [(k, v)]) = (map_of ob)(k \<mapsto> v)"
  by (induction ob) (auto simp: fun_eq_iff)

lemma map_of_obj_set: "map_of (obj_set ob k v) = (map_of ob)(k \<mapsto> v)"
  unfolding obj_set_def
  by (simp add: update_conv' map_of_insert_index map_of_snoc del: map_of_append)

lemma keys_insert_index: "fst ` set (insert_index n k v ob) = insert k (fst ` set ob)"
  by (induction ob) auto

lemma keys_obj_set: "fst ` set (obj_set ob k v) = insert k (fst ` set ob)"
  unfolding obj_set_def
  by (auto simp: keys_insert_index dom_update)

lemma distinct_insert_index:
  "k \<notin> fst ` set ob \<Longrightarrow> distinct (map fst ob) \<Longrightarrow>
   distinct (map fst (insert_index n k v ob))"
  by (induction ob) (auto simp: keys_insert_index)

lemma distinct_obj_set:
  "distinct (map fst ob) \<Longrightarrow> distinct (map fst (obj_set ob k v))"
  unfolding obj_set_def
  by (auto simp: distinct_update distinct_insert_index)

subsection \<open>Order of the properties of an object literal\<close>

lemma insert_index_insort:
  "list_all (\<lambda>e. is_array_index (fst e)) ix \<Longrightarrow>
   list_all (\<lambda>e. \<not> is_array_index (fst e)) rest \<Longrightarrow>
   insert_index (dec_val 0 k) k v (ix @ rest) =
     insort_key (\<lambda>e. dec_val 0 (fst e)) (k, v) ix @ rest"
proof (induction ix)
  case Nil
  then show ?case by (cases rest) auto
next
  case (Cons p ix)
  then show ?case by (auto simp: not_less)
qed

lemma obj_set_new_key:
  assumes "list_all (\<lambda>e. is_array_index (fst e)) ix"
    and "list_all (\<lambda>e. \<not> is_array_index (fst e)) rest"
    and "k \<notin> fst ` set (ix @ rest)"
  shows "obj_set (ix @ rest) k v =
     (if is_array_index k
      then insort_key (\<lambda>e. dec_val 0 (fst e)) (k, v) ix @ rest
      else ix @ rest @ [(k, v)])"
proof -
  from assms(3) have nk: "(k \<in> set (map fst (ix @ rest))) = False" by auto
  show ?thesis
    unfolding obj_set_def nk by (simp add: insert_index_insort [OF assms(1,2)])
qed

lemma distinct_fst_insort:
  "distinct (map fst (insort_key f x ix)) = (fst x \<notin> fst ` set ix \<and> distinct (map fst ix))"
  by (induction ix) (auto simp: set_insort_key)

lemma foldl_obj_set_order:
  assumes "list_all (\<lambda>e. is_array_index (fst e)) ix"
    and "list_all (\<lambda>e. \<not> is_array_index (fst e)) rest"
    and "sorted (map (\<lambda>e. dec_val 0 (fst e)) ix)"
    and "distinct (map fst (ix @ rest @ entries))"
  shows "\<exists>ix'. foldl (\<lambda>ob (k, v). obj_set ob k v) (ix @ rest) entries =
            ix' @ rest @ filter (\<lambda>e. \<not> is_array_index (fst e)) entries
          \<and> set ix' = set ix \<union> {e \<in> set entries. is_array_index (fst e)}
          \<and> list_all (\<lambda>e. is_array_index (fst e)) ix'
          \<and> sorted (map (\<lambda>e. dec_val 0 (fst e)) ix')"
  using assms
proof (induction entries arbitrary: ix rest)
  case Nil
  then show ?case by simp
next
  case (Cons e entries)
  obtain k v where e: "e = (k, v)" by (cases e)
  from Cons.prems(4) e have new: "k \<notin> fst ` set (ix @ rest)" by auto
  show ?case
  proof (cases "is_array_index k")
    case True
    let ?ix = "insort_key (\<lambda>e. dec_val 0 (fst e)) (k, v) ix"
    have step: "obj_set (ix @ rest) k v = ?ix @ rest"
      using obj_set_new_key [OF Cons.prems(1,2) new] True by simp
    have 1: "list_all (\<lambda>e. is_array_index (fst e)) ?ix"
      using Cons.prems(1) True by (simp add: list_all_iff set_insort_key)
    have 3: "sorted (map (\<lambda>e. dec_val 0 (fst e)) ?ix)"
      using Cons.prems(3) by (simp add: sorted_insort_key)
    have 4: "distinct (map fst (?ix @ rest @ entries))"
      using Cons.prems(4) e by (simp add: distinct_fst_insort set_insort_key)
    from Cons.IH [OF 1 Cons.prems(2) 3 4] obtain ix' where
      "foldl (\<lambda>ob (k, v). obj_set ob k v) (?ix @ rest) entries =
            ix' @ rest @ filter (\<lambda>e. \<not> is_array_index (fst e)) entries"
      "set ix' = set ?ix \<union> {e \<in> set entries. is_array_index (fst e)}"
      "list_all (\<lambda>e. is_array_index (fst e)) ix'"
      "sorted (map (\<lambda>e. dec_val 0 (fst e)) ix')"
      by blast
    with True e step show ?thesis
      by (intro exI [of _ ix']) (auto simp: set_insort_key)
  next
    case False
    have step: "obj_set (ix @ rest) k v = ix @ (rest @ [(k, v)])"
      using obj_set_new_key [OF Cons.prems(1,2) new] False by simp
    have 2: "list_all (\<lambda>e. \<not> is_array_index (fst e)) (rest @ [(k, v)])"
      using Cons.prems(2) False by simp
    have 4: "distinct (map fst (ix @ (rest @ [(k, v)]) @ entries))"
      using Cons.prems(4) e by auto
    from Cons.IH [OF Cons.prems(1) 2 Cons.prems(3) 4] obtain ix' where
      "foldl (\<lambda>ob (k, v). obj_set ob k v) (ix @ (rest @ [(k, v)])) entries =
            ix' @ (rest @ [(k, v)]) @ filter (\<lambda>e. \<not> is_array_index (fst e)) entries"
      "set ix' = set ix \<union> {e \<in> set entries. is_array_index (fst e)}"
      "list_all (\<lambda>e. is_array_index (fst e)) ix'"
      "sorted (map (\<lambda>e. dec_val 0 (fst e)) ix')"
      by blast
    with False e step show ?thesis
      by (intro exI [of _ ix']) auto
  qed
qed

lemma object_literal_order:
  assumes "distinct (map fst entries)"
  shows "\<exists>ix. object_literal entries = ix @ filter (\<lambda>e. \<not> is_array_index (fst e)) entries
          \<and> set ix = {e \<in> set entries. is_array_index (fst e)}
          \<and> sorted (map (\<lambda>e. dec_val 0 (fst e)) ix)"
proof -
  from foldl_obj_set_order [of "[]" "[]" entries] assms obtain ix' where
    "foldl (\<lambda>ob (k, v). obj_set ob k v) ([] @ []) entries =
            ix' @ [] @ filter (\<lambda>e. \<not> is_array_index (fst e)) entries"
    "set ix' = set [] \<union> {e \<in> set entries. is_array_index (fst e)}"
    "sorted (map (\<lambda>e. dec_val 0 (fst e)) ix')"
    by auto
  then show ?thesis by (intro exI [of _ ix']) (simp add: object_literal_def)
qed

lemma object_literal_plain:
  assumes "distinct (map fst entries)"
    and "list_all (\<lambda>e. \<not> is_array_index (fst e)) entries"
  shows "object_literal entries = entries"
proof -
  from object_literal_order [OF assms(1)] obtain ix where
    ix: "object_literal entries = ix @ filter (\<lambda>e. \<not> is_array_index (fst e)) entries"
    "set ix = {e \<in> set entries. is_array_index (fst e)}" by blast
  from assms(2) have "{e \<in> set entries. is_array_index (fst e)} = {}"
    by (auto simp: list_all_iff)
  with ix(2) have "ix = []" by simp
  moreover from assms(2) have "filter (\<lambda>e. \<not> is_array_index (fst e)) entries = entries"
    by (simp add: list_all_iff)
  ultimately show ?thesis using ix(1) by simp
qed

subsection \<open>The loops of the composer\<close>

lemma buildQuery_forEach_builds:
  "list_all2 (query_built tables tbq queryType) params bs \<Longrightarrow>
   buildQuery_forEach tables tbq queryType params acc =
     Inr (foldl (\<lambda>a b. query_push b a) acc bs)"
proof (induction params bs arbitrary: acc rule: list_all2_induct)
  case Nil
  then show ?case by simp
next
  case (Cons tp ps b bs)
  obtain tableName p where tp: "tp = (tableName, p)" by (cases tp)
  from Cons.hyps(1) tp obtain t where
    "table tables tableName = Inr t" "tbq t p tableName queryType = Inr b"
    by (auto simp: query_built_def split: sum.splits)
  with Cons.IH tp show ?case by simp
qed

lemma buildMutation_forEach_builds:
  "list_all2 (mutation_built tables tbm) params bss \<Longrightarrow>
   buildMutation_forEach tables tbm params acc =
     Inr (foldl (\<lambda>a b. mutation_push b a) acc (concat bss))"
proof (induction params bss arbitrary: acc rule: list_all2_induct)
  case Nil
  then show ?case by simp
next
  case (Cons tp ps builts bss)
  obtain tableName p where tp: "tp = (tableName, p)" by (cases tp)
  from Cons.hyps(1) tp obtain t where
    "map_of tables tableName = Some t" "tbm t p tableName = Inr builts"
    by (auto simp: mutation_built_def split: option.splits)
  with Cons.IH tp show ?case by simp
qed

lemma foldl_query_push:
  "foldl (\<lambda>a b. query_push b a) acc bs =
     acc\<lparr>queryName := queryName acc @ map query_name bs,
         queryVariables := queryVariables acc @ concat (map query_variables bs),
         queryFields := queryFields acc @ map query_fields bs,
         queryFragments :=
           foldl (\<lambda>frs b. obj_set frs (fragmentName b) (fragment b)) (queryFragments acc) bs,
         variables :=
           foldl (\<lambda>vs b. Object_assign vs (built_variables b)) (variables acc) bs\<rparr>"
  by (induction bs arbitrary: acc) (simp_all add: query_push_def)

lemma foldl_mutation_push:
  "foldl (\<lambda>a b. mutation_push b a) acc bs =
     acc\<lparr>queryName := queryName acc @ map query_name bs,
         queryVariables := queryVariables acc @ concat (map query_variables bs),
         queryFields := queryFields acc @ map query_fields bs,
         queryFragments :=
           foldl (\<lambda>frs b. obj_set frs (fragmentName b) (fragment b)) (queryFragments acc) bs,
         queryFlatSetting := queryFlatSetting acc @ map flatSetting bs,
         variables :=
           foldl (\<lambda>vs b. Object_assign vs (built_variables b)) (variables acc) bs\<rparr>"
  by (induction bs arbitrary: acc) (simp_all add: mutation_push_def)

lemma buildQuery_forEach_composition:
  "list_all2 (query_built tables tbq queryType) params bs \<Longrightarrow>
   buildQuery_forEach tables tbq queryType params empty_composition =
     Inr \<lparr>queryName = map query_name bs,
          queryVariables = concat (map query_variables bs),
          queryFields = map query_fields bs,
          queryFragments = merged_fragments bs,
          queryFlatSetting = [],
          variables = merged_variables bs\<rparr>"
  by (simp add: buildQuery_forEach_builds foldl_query_push empty_composition_def
      merged_fragments_def merged_variables_def)

lemma buildMutation_forEach_composition:
  "list_all2 (mutation_built tables tbm) params bss \<Longrightarrow>
   buildMutation_forEach tables tbm params empty_composition =
     Inr \<lparr>queryName = map query_name (concat bss),
          queryVariables = concat (map query_variables (concat bss)),
          queryFields = map query_fields (concat bss),
          queryFragments = merged_fragments (concat bss),
          queryFlatSetting = map flatSetting (concat bss),
          variables = merged_variables (concat bss)\<rparr>"
  by (simp add: buildMutation_forEach_builds foldl_mutation_push empty_composition_def
      merged_fragments_def merged_variables_def)

lemma buildQuery_forEach_unknown:
  "(tableName, p) \<in> set params \<Longrightarrow> map_of tables tableName = None \<Longrightarrow>
   \<exists>err. buildQuery_forEach tables tbq queryType params acc = Inl err"
proof (induction params arbitrary: acc)
  case Nil
  then show ?case by simp
next
  case (Cons tp ps)
  obtain n q where tp: "tp = (n, q)" by (cases tp)
  show ?case
  proof (cases "table tables n")
    case (Inl e)
    with tp show ?thesis by simp
  next
    case (Inr t)
    then have "n \<noteq> tableName" using Cons.prems(2) by (auto simp: table_def)
    with Cons.prems tp have "(tableName, p) \<in> set ps" by auto
    from Cons.IH[OF this Cons.prems(2)] tp Inr show ?thesis
      by (cases "tbq t q n queryType") auto
  qed
qed

subsection \<open>What the merged objects hold\<close>

lemma map_of_rev_distinct: "distinct (map fst xs) \<Longrightarrow> map_of (rev xs) = map_of xs"
proof (induction xs)
  case Nil
  then show ?case by simp
next
  case (Cons kv xs)
  obtain k v where kv: "kv = (k, v)" by (cases kv)
  from Cons.prems kv have "map_of xs k = None" by (simp add: map_of_eq_None_iff)
  moreover from Cons have "map_of (rev xs) = map_of xs" by simp
  ultimately show ?case
    unfolding kv by (auto simp: fun_eq_iff map_add_def split: option.splits)
qed


lemma map_of_foldl_obj_set:
  "map_of (foldl (\<lambda>target (k, v). obj_set target k v) init kvs) = map_of init ++ map_of (rev kvs)"
proof (induction kvs arbitrary: init)
  case Nil
  then show ?case by simp
next
  case (Cons kv kvs)
  obtain k v where kv: "kv = (k, v)" by (cases kv)
  show ?case
    unfolding kv by (simp add: Cons.IH map_of_obj_set fun_eq_iff map_add_def split: option.splits)
qed

lemma distinct_foldl_obj_set:
  "distinct (map fst init) \<Longrightarrow>
   distinct (map fst (foldl (\<lambda>target (k, v). obj_set target k v) init kvs))"
  by (induction kvs arbitrary: init) (auto simp: distinct_obj_set)

lemma distinct_Object_assign: "distinct (map fst (Object_assign a b))"
  by (simp add: Object_assign_def distinct_foldl_obj_set)

lemma map_of_Object_assign:
  "distinct (map fst a) \<Longrightarrow> map_of (Object_assign a b) = map_of a ++ map_of (rev b)"
  by (simp add: Object_assign_def map_of_foldl_obj_set map_of_rev_distinct
      fun_eq_iff map_add_def split: option.splits)

lemma map_of_foldl_Object_assign:
  "distinct (map fst init) \<Longrightarrow>
   map_of (foldl (\<lambda>vs b. Object_assign vs (built_variables b)) init bs) =
     map_of init ++ map_of (rev (concat (map built_variables bs)))"
proof (induction bs arbitrary: init)
  case Nil
  then show ?case by simp
next
  case (Cons b bs)
  have "distinct (map fst (Object_assign init (built_variables b)))"
    by (rule distinct_Object_assign)
  from Cons.IH [OF this] Cons.prems show ?case
    by (simp add: map_of_Object_assign fun_eq_iff map_add_def split: option.splits)
qed

lemma distinct_foldl_Object_assign:
  "distinct (map fst init) \<Longrightarrow>
   distinct (map fst (foldl (\<lambda>vs b. Object_assign vs (built_variables b)) init bs))"
  by (induction bs arbitrary: init) (auto simp: distinct_Object_assign)

lemma map_of_merged_variables:
  "map_of (merged_variables bs) = map_of (rev (concat (map built_variables bs)))"
  by (simp add: merged_variables_def map_of_foldl_Object_assign)


lemma distinct_foldl_fragments:
  "distinct (map fst init) \<Longrightarrow>
   distinct (map fst (foldl (\<lambda>frs b. obj_set frs (fragmentName b) (fragment b)) init bs))"
  by (induction bs arbitrary: init) (auto simp: distinct_obj_set)



lemma distinct_merged_fragments: "distinct (Object_keys (merged_fragments bs))"
  by (simp add: merged_fragments_def Object_keys_def distinct_foldl_fragments)


lemma merged_variables_preserved:
  assumes "distinct (concat (map (\<lambda>b. Object_keys (built_variables b)) bs))"
    and "b \<in> set bs" and "map_of (built_variables b) k = Some v"
  shows "map_of (merged_variables bs) k = Some v"
proof -
  have d: "distinct (map fst (concat (map built_variables bs)))"
    using assms(1) by (simp add: map_concat Object_keys_def comp_def)
  from assms(3) have "(k, v) \<in> set (built_variables b)" by (rule map_of_SomeD)
  with assms(2) have "(k, v) \<in> set (concat (map built_variables bs))" by auto
  with d have "map_of (concat (map built_variables bs)) k = Some v" by simp
  with d show ?thesis by (simp add: map_of_merged_variables map_of_rev_distinct)
qed



subsection \<open>The two documents\<close>

lemma buildQuery_document:
  assumes "list_all2 (query_built tables tbq queryType) params bs"
  shows "buildQuery tables tbq params queryType =
     Inr (''\<newline>            '' @ join ''\<newline>'' (Object_values (merged_fragments bs))
          @ ''\<newline>            '' @ queryType @ '' '' @ join ''_'' (map query_name bs) @ '' ''
          @ (if concat (map query_variables bs) = [] then []
             else ''('' @ join '', '' (concat (map query_variables bs)) @ '')'')
          @ '' {\<newline>                '' @ join ''\<newline>'' (map query_fields bs)
          @ ''\<newline>            }\<newline>        '',
          merged_variables bs)"
  using buildQuery_forEach_composition [OF assms]
  by (simp add: buildQuery_def query_text_def)

lemma buildMutation_document:
  assumes "list_all2 (mutation_built tables tbm) mparams bss"
  shows "buildMutation tables tbm mparams =
      Inr (''\<newline>            '' @ join ''\<newline>'' (Object_values (merged_fragments (concat bss)))
           @ ''\<newline>            mutation '' @ join ''_'' (map query_name (concat bss))
           @ '' ('' @ join '', '' (concat (map query_variables (concat bss))) @ '') {\<newline>                ''
           @ join ''\<newline>'' (map query_fields (concat bss))
           @ ''\<newline>            }\<newline>        '',
           merged_variables (concat bss), map flatSetting (concat bss))"
  using buildMutation_forEach_composition [OF assms]
  by (simp add: buildMutation_def mutation_text_def)

subsection \<open>Documents of the example inputs\<close>



lemma example_buildMutation_user:
  "buildMutation [(''user'', user_table)] example_mutation_builder [(''user'', ())] =
     Inr (''\<newline>            fragment user\<newline>            mutation insert_user () {\<newline>                insert_user { returning { id } }\<newline>            }\<newline>        '',
          [], [[(''user.insert'', ''insert_user.returning'')]])"
  by (simp add: buildMutation_def example_mutation_builder_def insert_build_def
      empty_composition_def mutation_push_def mutation_text_def Object_values_def
      Object_assign_def obj_set_def is_array_index_def is_digit_def)

subsection \<open>Flattening of query results\<close>



subsection \<open>Unknown tables\<close>

text \<open>
  Claim C2. If \<^verbatim>\<open>params\<close> names a table that is not in the catalog, \<^verbatim>\<open>buildQuery\<close>
  throws, \<^verbatim>\<open>query\<close> returns that error as \<^verbatim>\<open>[err]\<close>, and no request is handed to the
  execution transport during the call.
\<close>

theorem query_unknown_table:
  assumes "(tableName, p) \<in> set params" and "map_of tables tableName = None"
  shows "\<exists>err. buildQuery tables tbq params ''query'' = Inl err
             \<and> query tables tbq gql_run params flatOne = (Return (Err err), [])"
proof -
  from buildQuery_forEach_unknown [OF assms] obtain err where
    "buildQuery_forEach tables tbq ''query'' params empty_composition = Inl err" by blast
  then show ?thesis by (simp add: buildQuery_def query_def)
qed

theorem query_unknown_table_witness:
  "query example_tables example_query_builder example_transport
     [(''users'', ()), (''ghost'', ())] None = (Return (Err (table_not_found ''ghost'')), [])"
proof -
  have in_params: "(''ghost'', ()) \<in> set [(''users'', ()), (''ghost'', ())]" by simp
  have unknown: "map_of example_tables ''ghost'' = None" by (simp add: example_tables_def)
  from query_unknown_table [OF in_params unknown, of example_query_builder example_transport None]
  obtain err where
    b: "buildQuery example_tables example_query_builder
          [(''users'', ()), (''ghost'', ())] ''query'' = Inl err"
    and q: "query example_tables example_query_builder example_transport
          [(''users'', ()), (''ghost'', ())] None = (Return (Err err), [])"
    by blast
  have "buildQuery example_tables example_query_builder
          [(''users'', ()), (''ghost'', ())] ''query'' = Inl (table_not_found ''ghost'')"
    by (simp add: buildQuery_def example_tables_def example_query_builder_def table_def)
  with b have "err = table_not_found ''ghost''" by simp
  with q show ?thesis by simp
qed

subsection \<open>Registering a table\<close>

text \<open>
  Claim C8, as the code has it. \<^verbatim>\<open>createTable\<close> does not look whether the name is
  already registered: after the call the name holds a Table freshly constructed from
  the given name and type, whatever it held before, and every other name holds what
  it held.
\<close>

theorem createTable_overwrites:
  "table (createTable tables name type) n =
     (if n = name then Inr (new_Table name type) else table tables n)"
  by (simp add: table_def createTable_def map_of_obj_set)

text \<open>
  Claim C8 as stated fails: registering \<^verbatim>\<open>user\<close> a second time replaces a Table that
  has a field and a primary key by a fresh one that has neither.
\<close>

theorem createTable_not_idempotent:
  "table [(''user'', user_table)] ''user'' = Inr user_table
   \<and> table (createTable [(''user'', user_table)] ''user'' ''BASE TABLE'') ''user''
       = Inr (new_Table ''user'' ''BASE TABLE'')
   \<and> table_fields (new_Table ''user'' ''BASE TABLE'') = []
   \<and> table_fields user_table \<noteq> []"
  by (simp add: table_def createTable_def obj_set_def new_Table_def user_table_def)

subsection \<open>Order of the composed query document\<close>

text \<open>
  Claim C7, as the code has it. \<^verbatim>\<open>buildQuery\<close> takes the tables in the order of
  \<^verbatim>\<open>Object.keys(params)\<close>: when \<open>bs\<close> are the builds of the tables in that order,
  position by position, the document's operation name is the builds' names joined by
  \<^verbatim>\<open>_\<close>, its declaration list is the builds' declarations concatenated, and its
  root selections are the builds' field selections, all in that same order. When the
  caller writes \<^verbatim>\<open>params\<close> as a literal whose table names are pairwise different and
  none of them an array index, that order is the order of the literal. In general the
  names that are array indices come first, in ascending numeric order, and the other
  names follow in the order of the literal.
\<close>

theorem buildQuery_order:
  "(list_all2 (query_built tables tbq queryType) params bs \<longrightarrow>
      buildQuery tables tbq params queryType =
        Inr (''\<newline>            '' @ join ''\<newline>'' (Object_values (merged_fragments bs))
             @ ''\<newline>            '' @ queryType @ '' '' @ join ''_'' (map query_name bs) @ '' ''
             @ (if concat (map query_variables bs) = [] then []
                else ''('' @ join '', '' (concat (map query_variables bs)) @ '')'')
             @ '' {\<newline>                '' @ join ''\<newline>'' (map query_fields bs)
             @ ''\<newline>            }\<newline>        '',
             merged_variables bs))
 \<and> (distinct (map fst entries) \<and> list_all (\<lambda>e. \<not> is_array_index (fst e)) entries
      \<and> list_all2 (query_built tables tbq queryType) entries bs \<longrightarrow>
      buildQuery tables tbq (object_literal entries) queryType =
        Inr (''\<newline>            '' @ join ''\<newline>'' (Object_values (merged_fragments bs))
             @ ''\<newline>            '' @ queryType @ '' '' @ join ''_'' (map query_name bs) @ '' ''
             @ (if concat (map query_variables bs) = [] then []
                else ''('' @ join '', '' (concat (map query_variables bs)) @ '')'')
             @ '' {\<newline>                '' @ join ''\<newline>'' (map query_fields bs)
             @ ''\<newline>            }\<newline>        '',
             merged_variables bs))
 \<and> (distinct (map fst entries) \<longrightarrow>
      (\<exists>ix. object_literal entries = ix @ filter (\<lambda>e. \<not> is_array_index (fst e)) entries
            \<and> set ix = {e \<in> set entries. is_array_index (fst e)}
            \<and> sorted (map (\<lambda>e. dec_val 0 (fst e)) ix)))"
proof (intro conjI impI)
  assume "list_all2 (query_built tables tbq queryType) params bs"
  then show "buildQuery tables tbq params queryType =
        Inr (''\<newline>            '' @ join ''\<newline>'' (Object_values (merged_fragments bs))
             @ ''\<newline>            '' @ queryType @ '' '' @ join ''_'' (map query_name bs) @ '' ''
             @ (if concat (map query_variables bs) = [] then []
                else ''('' @ join '', '' (concat (map query_variables bs)) @ '')'')
             @ '' {\<newline>                '' @ join ''\<newline>'' (map query_fields bs)
             @ ''\<newline>            }\<newline>        '',
             merged_variables bs)"
    by (rule buildQuery_document)
next
  assume a: "distinct (map fst entries) \<and> list_all (\<lambda>e. \<not> is_array_index (fst e)) entries
      \<and> list_all2 (query_built tables tbq queryType) entries bs"
  then have "object_literal entries = entries" by (simp add: object_literal_plain)
  moreover from a have "list_all2 (query_built tables tbq queryType) entries bs"
    by (rule conjunct2 [THEN conjunct2])
  ultimately show "buildQuery tables tbq (object_literal entries) queryType =
        Inr (''\<newline>            '' @ join ''\<newline>'' (Object_values (merged_fragments bs))
             @ ''\<newline>            '' @ queryType @ '' '' @ join ''_'' (map query_name bs) @ '' ''
             @ (if concat (map query_variables bs) = [] then []
                else ''('' @ join '', '' (concat (map query_variables bs)) @ '')'')
             @ '' {\<newline>                '' @ join ''\<newline>'' (map query_fields bs)
             @ ''\<newline>            }\<newline>        '',
             merged_variables bs)"
    by (simp only: buildQuery_document)
next
  assume "distinct (map fst entries)"
  then show "\<exists>ix. object_literal entries = ix @ filter (\<lambda>e. \<not> is_array_index (fst e)) entries
            \<and> set ix = {e \<in> set entries. is_array_index (fst e)}
            \<and> sorted (map (\<lambda>e. dec_val 0 (fst e)) ix)"
    by (rule object_literal_order)
qed

lemma example_query_built:
  "list_all2 (query_built example_tables example_query_builder ''query'')
     [(''users'', ()), (''posts'', ()), (''tags'', ())]
     [variable_build ''users'', variable_build ''posts'', variable_build ''tags'']"
  by (simp add: query_built_def example_tables_def example_query_builder_def table_def)

theorem buildQuery_order_witness:
  "buildQuery example_tables example_query_builder
     [(''users'', ()), (''posts'', ()), (''tags'', ())] ''query'' =
   Inr (''\<newline>            fragment users\<newline>fragment posts\<newline>fragment tags\<newline>            query users_posts_tags ($users_limit: Int, $posts_limit: Int, $tags_limit: Int) {\<newline>                users { id }\<newline>posts { id }\<newline>tags { id }\<newline>            }\<newline>        '',
        [(''users_limit'', JNum 10), (''posts_limit'', JNum 10), (''tags_limit'', JNum 10)])
 \<and> buildQuery example_tables example_query_builder
     (object_literal [(''users'', ()), (''posts'', ()), (''tags'', ())]) ''query'' =
   Inr (''\<newline>            fragment users\<newline>fragment posts\<newline>fragment tags\<newline>            query users_posts_tags ($users_limit: Int, $posts_limit: Int, $tags_limit: Int) {\<newline>                users { id }\<newline>posts { id }\<newline>tags { id }\<newline>            }\<newline>        '',
        [(''users_limit'', JNum 10), (''posts_limit'', JNum 10), (''tags_limit'', JNum 10)])
 \<and> (\<exists>ix. object_literal [(''users'', ()), (''7'', ())] = ix @ [(''users'', ())]
          \<and> set ix = {(''7'', ())})"
proof -
  let ?bs = "[variable_build ''users'', variable_build ''posts'', variable_build ''tags'']"
  let ?entries = "[(''users'', ()), (''posts'', ()), (''tags'', ())]"
  have f: "merged_fragments ?bs =
      [(''users_fields'', ''fragment users''), (''posts_fields'', ''fragment posts''),
       (''tags_fields'', ''fragment tags'')]"
    by (simp add: merged_fragments_def variable_build_def obj_set_def is_array_index_def
        is_digit_def)
  have v: "merged_variables ?bs =
      [(''users_limit'', JNum 10), (''posts_limit'', JNum 10), (''tags_limit'', JNum 10)]"
    by (simp add: merged_variables_def variable_build_def Object_assign_def obj_set_def
        is_array_index_def is_digit_def)
  have n: "map query_name ?bs = [''users'', ''posts'', ''tags'']"
    by (simp add: variable_build_def)
  have q: "concat (map query_variables ?bs) =
      [''$users_limit: Int'', ''$posts_limit: Int'', ''$tags_limit: Int'']"
    by (simp add: variable_build_def)
  have fl: "map query_fields ?bs = [''users { id }'', ''posts { id }'', ''tags { id }'']"
    by (simp add: variable_build_def)
  have plain: "distinct (map fst ?entries)
      \<and> list_all (\<lambda>e. \<not> is_array_index (fst e)) ?entries
      \<and> list_all2 (query_built example_tables example_query_builder ''query'') ?entries ?bs"
    using example_query_built by (simp add: is_array_index_def is_digit_def)
  have d: "distinct (map fst [(''users'', ()), (''7'', ())])" by simp
  have i7: "is_array_index ''7''" by (simp add: is_array_index_def is_digit_def)
  have iu: "\<not> is_array_index ''users''" by (simp add: is_array_index_def is_digit_def)
  have 1: "buildQuery example_tables example_query_builder ?entries ''query'' =
   Inr (''\<newline>            fragment users\<newline>fragment posts\<newline>fragment tags\<newline>            query users_posts_tags ($users_limit: Int, $posts_limit: Int, $tags_limit: Int) {\<newline>                users { id }\<newline>posts { id }\<newline>tags { id }\<newline>            }\<newline>        '',
        [(''users_limit'', JNum 10), (''posts_limit'', JNum 10), (''tags_limit'', JNum 10)])"
    using buildQuery_order [where tables = example_tables and tbq = example_query_builder
        and queryType = "''query''" and params = ?entries and bs = ?bs,
        THEN conjunct1, THEN mp, OF example_query_built]
    unfolding f v n q fl by (simp add: Object_values_def)
  have 2: "buildQuery example_tables example_query_builder (object_literal ?entries) ''query'' =
   Inr (''\<newline>            fragment users\<newline>fragment posts\<newline>fragment tags\<newline>            query users_posts_tags ($users_limit: Int, $posts_limit: Int, $tags_limit: Int) {\<newline>                users { id }\<newline>posts { id }\<newline>tags { id }\<newline>            }\<newline>        '',
        [(''users_limit'', JNum 10), (''posts_limit'', JNum 10), (''tags_limit'', JNum 10)])"
    using buildQuery_order [where tables = example_tables and tbq = example_query_builder
        and queryType = "''query''" and entries = ?entries and bs = ?bs,
        THEN conjunct2, THEN conjunct1, THEN mp, OF plain]
    unfolding f v n q fl by (simp add: Object_values_def)
  have 3: "\<exists>ix. object_literal [(''users'', ()), (''7'', ())] = ix @ [(''users'', ())]
          \<and> set ix = {(''7'', ())}"
    using buildQuery_order [where entries = "[(''users'', ()), (''7'', ())]",
        THEN conjunct2, THEN conjunct2, THEN mp, OF d]
    by (auto simp: i7 iu)
  from 1 2 3 show ?thesis by (intro conjI)
qed

text \<open>
  Claim C7 as stated fails: for the literal \<^verbatim>\<open>{ users: ..., 7: ... }\<close> line 140 lists
  the table \<^verbatim>\<open>7\<close> before \<^verbatim>\<open>users\<close>, and the document is named \<^verbatim>\<open>7_users\<close> and
  selects \<^verbatim>\<open>7\<close> first.
\<close>

theorem buildQuery_reorders_index_names:
  "object_literal [(''users'', ()), (''7'', ())] = [(''7'', ()), (''users'', ())]
 \<and> buildQuery numbered_tables example_plain_builder
       (object_literal [(''users'', ()), (''7'', ())]) ''query'' =
     Inr (''\<newline>            fragment 7\<newline>fragment users\<newline>            query 7_users  {\<newline>                7 { id }\<newline>users { id }\<newline>            }\<newline>        '', [])"
proof -
  have l: "object_literal [(''users'', ()), (''7'', ())] = [(''7'', ()), (''users'', ())]"
    by (simp add: object_literal_def obj_set_def is_array_index_def is_digit_def)
  have "buildQuery numbered_tables example_plain_builder [(''7'', ()), (''users'', ())] ''query'' =
     Inr (''\<newline>            fragment 7\<newline>fragment users\<newline>            query 7_users  {\<newline>                7 { id }\<newline>users { id }\<newline>            }\<newline>        '', [])"
    by (simp add: buildQuery_def numbered_tables_def example_plain_builder_def plain_build_def
        table_def empty_composition_def query_push_def query_text_def Object_values_def
        Object_assign_def obj_set_def is_array_index_def is_digit_def)
  with l show ?thesis by simp
qed

subsection \<open>The parameter list of the operation\<close>

text \<open>
  Claim C9. With an empty merged declaration list the query document has nothing
  between the operation name and the opening brace but the two spaces of the
  template; the mutation document always has the parentheses around its joined
  declarations, so with an empty declaration list it reads \<^verbatim>\<open>name () {\<close>.
\<close>

theorem parameter_list_parentheses:
  "(list_all2 (query_built tables tbq queryType) params bs
      \<and> concat (map query_variables bs) = [] \<longrightarrow>
    buildQuery tables tbq params queryType =
      Inr (''\<newline>            '' @ join ''\<newline>'' (Object_values (merged_fragments bs))
           @ ''\<newline>            '' @ queryType @ '' '' @ join ''_'' (map query_name bs)
           @ ''  {\<newline>                '' @ join ''\<newline>'' (map query_fields bs)
           @ ''\<newline>            }\<newline>        '',
           merged_variables bs))
 \<and> (list_all2 (mutation_built tables tbm) mparams bss \<longrightarrow>
    buildMutation tables tbm mparams =
      Inr (''\<newline>            '' @ join ''\<newline>'' (Object_values (merged_fragments (concat bss)))
           @ ''\<newline>            mutation '' @ join ''_'' (map query_name (concat bss))
           @ '' ('' @ join '', '' (concat (map query_variables (concat bss))) @ '') {\<newline>                ''
           @ join ''\<newline>'' (map query_fields (concat bss))
           @ ''\<newline>            }\<newline>        '',
           merged_variables (concat bss), map flatSetting (concat bss)))
 \<and> (list_all2 (mutation_built tables tbm) mparams bss
      \<and> concat (map query_variables (concat bss)) = [] \<longrightarrow>
    buildMutation tables tbm mparams =
      Inr (''\<newline>            '' @ join ''\<newline>'' (Object_values (merged_fragments (concat bss)))
           @ ''\<newline>            mutation '' @ join ''_'' (map query_name (concat bss))
           @ '' () {\<newline>                ''
           @ join ''\<newline>'' (map query_fields (concat bss))
           @ ''\<newline>            }\<newline>        '',
           merged_variables (concat bss), map flatSetting (concat bss)))"
proof (intro conjI impI)
  assume a: "list_all2 (query_built tables tbq queryType) params bs
      \<and> concat (map query_variables bs) = []"
  then have vs: "concat (map query_variables bs) = []" by blast
  from a have "list_all2 (query_built tables tbq queryType) params bs" by blast
  from buildQuery_forEach_composition [OF this]
  show "buildQuery tables tbq params queryType =
      Inr (''\<newline>            '' @ join ''\<newline>'' (Object_values (merged_fragments bs))
           @ ''\<newline>            '' @ queryType @ '' '' @ join ''_'' (map query_name bs)
           @ ''  {\<newline>                '' @ join ''\<newline>'' (map query_fields bs)
           @ ''\<newline>            }\<newline>        '',
           merged_variables bs)"
    by (simp add: buildQuery_def query_text_def vs)
next
  assume "list_all2 (mutation_built tables tbm) mparams bss"
  then show "buildMutation tables tbm mparams =
      Inr (''\<newline>            '' @ join ''\<newline>'' (Object_values (merged_fragments (concat bss)))
           @ ''\<newline>            mutation '' @ join ''_'' (map query_name (concat bss))
           @ '' ('' @ join '', '' (concat (map query_variables (concat bss))) @ '') {\<newline>                ''
           @ join ''\<newline>'' (map query_fields (concat bss))
           @ ''\<newline>            }\<newline>        '',
           merged_variables (concat bss), map flatSetting (concat bss))"
    by (rule buildMutation_document)
next
  assume a: "list_all2 (mutation_built tables tbm) mparams bss
      \<and> concat (map query_variables (concat bss)) = []"
  then have vs: "concat (map query_variables (concat bss)) = []" by blast
  from a have "list_all2 (mutation_built tables tbm) mparams bss" by blast
  from buildMutation_document [OF this]
  show "buildMutation tables tbm mparams =
      Inr (''\<newline>            '' @ join ''\<newline>'' (Object_values (merged_fragments (concat bss)))
           @ ''\<newline>            mutation '' @ join ''_'' (map query_name (concat bss))
           @ '' () {\<newline>                ''
           @ join ''\<newline>'' (map query_fields (concat bss))
           @ ''\<newline>            }\<newline>        '',
           merged_variables (concat bss), map flatSetting (concat bss))"
    by (simp add: vs)
qed

lemma example_plain_built:
  "list_all2 (query_built example_tables example_plain_builder ''query'')
     [(''users'', ())] [plain_build ''users'']"
  by (simp add: query_built_def example_tables_def example_plain_builder_def table_def)

lemma example_mutation_built:
  "list_all2 (mutation_built example_tables example_mutation_builder)
     [(''users'', ())] [[insert_build ''users'']]"
  by (simp add: mutation_built_def example_mutation_builder_def example_tables_def)

theorem parameter_list_parentheses_witness:
  "buildQuery example_tables example_plain_builder [(''users'', ())] ''query'' =
     Inr (''\<newline>            fragment users\<newline>            query users  {\<newline>                users { id }\<newline>            }\<newline>        '', [])
 \<and> buildMutation example_tables example_mutation_builder [(''users'', ())] =
     Inr (''\<newline>            fragment users\<newline>            mutation insert_users () {\<newline>                insert_users { returning { id } }\<newline>            }\<newline>        '', [],
          [[(''users.insert'', ''insert_users.returning'')]])"
proof -
  have qf: "merged_fragments [plain_build ''users''] = [(''users_fields'', ''fragment users'')]"
    by (simp add: merged_fragments_def plain_build_def obj_set_def is_array_index_def
        is_digit_def)
  have qv: "merged_variables [plain_build ''users''] = []"
    by (simp add: merged_variables_def plain_build_def Object_assign_def)
  have qd: "concat (map query_variables [plain_build ''users'']) = []"
    by (simp add: plain_build_def)
  have qn: "map query_name [plain_build ''users''] = [''users'']"
    by (simp add: plain_build_def)
  have ql: "map query_fields [plain_build ''users''] = [''users { id }'']"
    by (simp add: plain_build_def)
  have mc: "concat [[insert_build ''users'']] = [insert_build ''users'']" by simp
  have mf: "merged_fragments [insert_build ''users''] = [(''users_fields'', ''fragment users'')]"
    by (simp add: merged_fragments_def insert_build_def obj_set_def is_array_index_def
        is_digit_def)
  have mv: "merged_variables [insert_build ''users''] = []"
    by (simp add: merged_variables_def insert_build_def Object_assign_def)
  have md: "concat (map query_variables [insert_build ''users'']) = []"
    by (simp add: insert_build_def)
  have mn: "map query_name [insert_build ''users''] = [''insert_users'']"
    by (simp add: insert_build_def)
  have ml: "map query_fields [insert_build ''users''] = [''insert_users { returning { id } }'']"
    by (simp add: insert_build_def)
  have ms: "map flatSetting [insert_build ''users''] =
      [[(''users.insert'', ''insert_users.returning'')]]"
    by (simp add: insert_build_def)
  from parameter_list_parentheses [where tables = example_tables
      and tbq = example_plain_builder and queryType = "''query''"
      and params = "[(''users'', ())]" and bs = "[plain_build ''users'']"
      and tbm = example_mutation_builder
      and mparams = "[(''users'', ())]" and bss = "[[insert_build ''users'']]"]
  show ?thesis
    unfolding mc qf qv qd qn ql mf mv md mn ml ms
    using example_plain_built example_mutation_built
    by (simp add: Object_values_def)
qed

subsection \<open>Subscriptions\<close>

text \<open>
  Claim C10. If compiling the document throws, \<^verbatim>\<open>subscribe\<close> returns the one-element
  array \<^verbatim>\<open>[err]\<close>; this is what happens for params that name an unknown table. If
  compiling succeeds it returns what the live transport answered, called with the
  document, the variables, the callback and the flattening key.
\<close>

theorem subscribe_shapes:
  "(\<forall>err. buildQuery tables tbq params ''subscription'' = Inl err \<longrightarrow>
      subscribe tables tbq ws_run params callback flatOne = ErrorArray err)
 \<and> (\<forall>q vars. buildQuery tables tbq params ''subscription'' = Inr (q, vars) \<longrightarrow>
      subscribe tables tbq ws_run params callback flatOne =
        Unsubscribe (ws_run q vars callback
          (if length params = 1 \<and> flatOne_of flatOne then Some (fst (hd params)) else None)))
 \<and> ((tableName, p) \<in> set params \<and> map_of tables tableName = None \<longrightarrow>
      (\<exists>err. subscribe tables tbq ws_run params callback flatOne = ErrorArray err))"
proof (intro conjI impI allI)
  fix err assume "buildQuery tables tbq params ''subscription'' = Inl err"
  then show "subscribe tables tbq ws_run params callback flatOne = ErrorArray err"
    by (simp add: subscribe_def)
next
  fix q vars assume "buildQuery tables tbq params ''subscription'' = Inr (q, vars)"
  then show "subscribe tables tbq ws_run params callback flatOne =
        Unsubscribe (ws_run q vars callback
          (if length params = 1 \<and> flatOne_of flatOne then Some (fst (hd params)) else None))"
    by (cases params) (simp_all add: subscribe_def Object_keys_def)
next
  assume a: "(tableName, p) \<in> set params \<and> map_of tables tableName = None"
  then have m: "(tableName, p) \<in> set params" and n: "map_of tables tableName = None"
    by simp_all
  from buildQuery_forEach_unknown [OF m n] obtain err where
    "buildQuery_forEach tables tbq ''subscription'' params empty_composition = Inl err"
    by blast
  then show "\<exists>err. subscribe tables tbq ws_run params callback flatOne = ErrorArray err"
    by (simp add: subscribe_def buildQuery_def)
qed

theorem subscribe_shapes_witness:
  "subscribe example_tables example_plain_builder example_ws [(''ghost'', ())] () None
     = ErrorArray (table_not_found ''ghost'')
 \<and> subscribe example_tables example_plain_builder example_ws [(''users'', ())] () None
     = Unsubscribe (Some ''users'')"
proof -
  have e: "buildQuery example_tables example_plain_builder [(''ghost'', ())] ''subscription''
             = Inl (table_not_found ''ghost'')"
    by (simp add: buildQuery_def example_tables_def table_def)
  obtain q vars where s:
    "buildQuery example_tables example_plain_builder [(''users'', ())] ''subscription''
       = Inr (q, vars)"
    by (simp add: buildQuery_def example_tables_def example_plain_builder_def table_def)
  have 1: "subscribe example_tables example_plain_builder example_ws [(''ghost'', ())] () None
     = ErrorArray (table_not_found ''ghost'')"
    using subscribe_shapes [where tables = example_tables and tbq = example_plain_builder
        and params = "[(''ghost'', ())]" and ws_run = example_ws and callback = "()"
        and flatOne = None and tableName = "''ghost''" and p = "()"]
    unfolding e by simp
  have 2: "subscribe example_tables example_plain_builder example_ws [(''users'', ())] () None
     = Unsubscribe (Some ''users'')"
    using subscribe_shapes [where tables = example_tables and tbq = example_plain_builder
        and params = "[(''users'', ())]" and ws_run = example_ws and callback = "()"
        and flatOne = None and tableName = "''ghost''" and p = "()"]
    unfolding s by (simp add: example_ws_def flatOne_of_def)
  from 1 2 show ?thesis by simp
qed

subsection \<open>Fragments of the same name\<close>




subsection \<open>Names within one document\<close>

text \<open>
  The composer leaves the builds' names as they are: the declaration list is the
  builds' declarations concatenated and the merged variable map is the builds'
  bindings assigned in order, a later binding replacing an earlier one of the same
  name. Fragment names and the names of the merged bindings are pairwise distinct in
  every document. When the binding names of the builds are pairwise distinct, every
  binding of every build is in the merged map. Whether the names of different builds
  differ is decided by the builder methods of the Table class, which are not among
  the sources.
\<close>

lemma composer_keeps_names:
  "(list_all2 (query_built tables tbq queryType) params bs \<longrightarrow>
      buildQuery_forEach tables tbq queryType params empty_composition =
        Inr \<lparr>queryName = map query_name bs,
             queryVariables = concat (map query_variables bs),
             queryFields = map query_fields bs,
             queryFragments = merged_fragments bs,
             queryFlatSetting = [],
             variables = merged_variables bs\<rparr>)
 \<and> (list_all2 (mutation_built tables tbm) mparams bss \<longrightarrow>
      buildMutation_forEach tables tbm mparams empty_composition =
        Inr \<lparr>queryName = map query_name (concat bss),
             queryVariables = concat (map query_variables (concat bss)),
             queryFields = map query_fields (concat bss),
             queryFragments = merged_fragments (concat bss),
             queryFlatSetting = map flatSetting (concat bss),
             variables = merged_variables (concat bss)\<rparr>)
 \<and> distinct (Object_keys (merged_fragments xs))
 \<and> distinct (Object_keys (merged_variables xs))
 \<and> map_of (merged_variables xs) = map_of (rev (concat (map built_variables xs)))
 \<and> (distinct (concat (map (\<lambda>b. Object_keys (built_variables b)) xs))
      \<and> b \<in> set xs \<and> map_of (built_variables b) k = Some v \<longrightarrow>
    map_of (merged_variables xs) k = Some v)"
proof (intro conjI impI)
  assume "list_all2 (query_built tables tbq queryType) params bs"
  then show "buildQuery_forEach tables tbq queryType params empty_composition =
        Inr \<lparr>queryName = map query_name bs,
             queryVariables = concat (map query_variables bs),
             queryFields = map query_fields bs,
             queryFragments = merged_fragments bs,
             queryFlatSetting = [],
             variables = merged_variables bs\<rparr>"
    by (rule buildQuery_forEach_composition)
next
  assume "list_all2 (mutation_built tables tbm) mparams bss"
  then show "buildMutation_forEach tables tbm mparams empty_composition =
        Inr \<lparr>queryName = map query_name (concat bss),
             queryVariables = concat (map query_variables (concat bss)),
             queryFields = map query_fields (concat bss),
             queryFragments = merged_fragments (concat bss),
             queryFlatSetting = map flatSetting (concat bss),
             variables = merged_variables (concat bss)\<rparr>"
    by (rule buildMutation_forEach_composition)
next
  show "distinct (Object_keys (merged_fragments xs))" by (rule distinct_merged_fragments)
next
  show "distinct (Object_keys (merged_variables xs))"
    by (simp add: merged_variables_def Object_keys_def distinct_foldl_Object_assign)
next
  show "map_of (merged_variables xs) = map_of (rev (concat (map built_variables xs)))"
    by (rule map_of_merged_variables)
next
  assume a: "distinct (concat (map (\<lambda>b. Object_keys (built_variables b)) xs))
      \<and> b \<in> set xs \<and> map_of (built_variables b) k = Some v"
  then have "distinct (concat (map (\<lambda>b. Object_keys (built_variables b)) xs))"
    and "b \<in> set xs" and "map_of (built_variables b) k = Some v"
    by (rule conjunct1, rule conjunct2 [THEN conjunct1], rule conjunct2 [THEN conjunct2])
  then show "map_of (merged_variables xs) k = Some v"
    by (rule merged_variables_preserved)
qed

subsection \<open>Reading and writing along paths\<close>

lemma obj_at_reduce_path: "obj_at ob ks = Some v \<Longrightarrow> reduce_path ob ks = Inr v"
proof (induction ks arbitrary: ob)
  case Nil
  then show ?case by simp
next
  case (Cons k ks)
  then show ?case by (cases ob) (auto split: option.splits)
qed

lemma obj_at_set_path:
  "ks \<noteq> [] \<Longrightarrow> obj_at (JObj (set_path ob ks v)) ks = Some v"
  by (induction ob ks v rule: set_path.induct) (simp_all add: map_of_obj_set)

lemma comparable_Nil2: "comparable ks []"
  by (cases ks) simp_all

lemma comparable_sym: "comparable ks ks' = comparable ks' ks"
  by (induction ks ks' rule: comparable.induct) (auto simp: comparable_Nil2)

lemma comparable_refl: "comparable ks ks"
  by (induction ks) auto

lemma obj_at_set_path_other:
  "\<not> comparable ks ks' \<Longrightarrow> obj_at (JObj ob) ks' = Some w \<Longrightarrow>
   obj_at (JObj (set_path ob ks v)) ks' = Some w"
proof (induction ob ks v arbitrary: ks' rule: set_path.induct)
  case (1 ob v)
  then show ?case by simp
next
  case (2 ob k v)
  then show ?case by (cases ks') (auto simp: map_of_obj_set)
next
  case (3 ob k k' ks v)
  from "3.prems"(1) obtain j r where ks': "ks' = j # r" by (cases ks') auto
  show ?case
  proof (cases "j = k")
    case False
    with "3.prems" ks' show ?thesis by (simp add: map_of_obj_set)
  next
    case True
    with "3.prems"(1) ks' have nc: "\<not> comparable (k' # ks) r" by simp
    then obtain j' r' where r: "r = j' # r'" by (cases r) auto
    from "3.prems"(2) ks' True obtain c where c: "map_of ob k = Some c" "obj_at c r = Some w"
      by (auto split: option.splits)
    with r obtain kvs where kvs: "c = JObj kvs" by (cases c) auto
    from "3.IH" [OF nc] c kvs have "obj_at (JObj (set_path kvs (k' # ks) v)) r = Some w"
      by simp
    with c kvs ks' True show ?thesis by (simp add: map_of_obj_set)
  qed
qed

lemma remap_forEach_resolved:
  "list_all2 (resolves response) flats pairs \<Longrightarrow>
   remap_forEach response flats toReturn = Inr (write_all toReturn pairs)"
proof (induction flats pairs arbitrary: toReturn rule: list_all2_induct)
  case Nil
  then show ?case by (simp add: write_all_def)
next
  case (Cons flat flats cv pairs)
  obtain cp v where cv: "cv = (cp, v)" by (cases cv)
  from Cons.hyps(1) cv obtain hp rest where
    "flat = (cp, hp) # rest" "reduce_path response (split_on CHR ''.'' hp) = Inr v"
    by (auto simp: resolves_def split: list.splits)
  with Cons.IH [of "objectFromPath toReturn cp v"] cv show ?case
    by (simp add: write_all_def)
qed

lemma write_all_keeps:
  "list_all (\<lambda>cv. \<not> comparable ks (split_on CHR ''.'' (fst cv))) pairs \<Longrightarrow>
   obj_at (JObj ob) ks = Some w \<Longrightarrow> obj_at (JObj (write_all ob pairs)) ks = Some w"
proof (induction pairs arbitrary: ob)
  case Nil
  then show ?case by (simp add: write_all_def)
next
  case (Cons cv pairs)
  obtain cp v where cv: "cv = (cp, v)" by (cases cv)
  from Cons.prems(1) cv have "\<not> comparable (split_on CHR ''.'' cp) ks"
    by (simp add: comparable_sym)
  from obj_at_set_path_other [OF this Cons.prems(2)]
  have "obj_at (JObj (objectFromPath ob cp v)) ks = Some w"
    by (simp add: objectFromPath_def)
  from Cons.IH [OF _ this] Cons.prems(1) cv show ?case
    by (simp add: write_all_def)
qed

lemma write_all_reads_back:
  "separate_paths (map (\<lambda>cv. split_on CHR ''.'' (fst cv)) pairs) \<Longrightarrow>
   (cp, v) \<in> set pairs \<Longrightarrow>
   obj_at (JObj (write_all ob pairs)) (split_on CHR ''.'' cp) = Some v"
proof (induction pairs arbitrary: ob)
  case Nil
  then show ?case by simp
next
  case (Cons cv pairs)
  obtain cp' v' where cv: "cv = (cp', v')" by (cases cv)
  have step: "write_all ob (cv # pairs) = write_all (objectFromPath ob cp' v') pairs"
    by (simp add: write_all_def cv)
  show ?case
  proof (cases "(cp, v) = cv")
    case True
    with cv have eq: "cp' = cp" "v' = v" by simp_all
    have "obj_at (JObj (objectFromPath ob cp v)) (split_on CHR ''.'' cp) = Some v"
      by (simp add: objectFromPath_def obj_at_set_path split_on_nonempty)
    moreover from Cons.prems(1) cv eq
    have "list_all (\<lambda>cv. \<not> comparable (split_on CHR ''.'' cp) (split_on CHR ''.'' (fst cv))) pairs"
      by (simp add: list_all_iff)
    ultimately show ?thesis unfolding step eq by (intro write_all_keeps)
  next
    case False
    with Cons.prems(2) have "(cp, v) \<in> set pairs" by auto
    moreover from Cons.prems(1) have
      "separate_paths (map (\<lambda>cv. split_on CHR ''.'' (fst cv)) pairs)" by simp
    ultimately show ?thesis unfolding step by (intro Cons.IH)
  qed
qed



subsection \<open>Remapping of mutation results\<close>

text \<open>
  Claim C3. When the mutation document compiles, the transport answers a response
  and every flat setting's endpoint path resolves in it (\<open>pairs\<close> lists the caller
  paths with the resolved values), \<^verbatim>\<open>mutate\<close> returns \<^verbatim>\<open>[null, toReturn]\<close> where
  \<^verbatim>\<open>toReturn\<close> is a fresh object into which each value has been written at its caller
  path, in order; when no caller path is a prefix of another, reading the result
  along any of the caller paths gives that pair's value. The witness is the spec's
  example: the setting \<^verbatim>\<open>user.insert\<close> / \<^verbatim>\<open>insert_user.returning\<close> and the response
  \<^verbatim>\<open>{insert_user: {returning: [{id: 1}]}}\<close> give \<^verbatim>\<open>{user: {insert: [{id: 1}]}}\<close>.
\<close>

theorem mutate_remaps:
  assumes "buildMutation tables tbm params = Inr (q, vars, flats)"
    and "gql_run q vars = Inr response"
    and "list_all2 (resolves response) flats pairs"
  shows "fst (mutate tables tbm gql_run params) = Return (Ok (JObj (write_all [] pairs)))
       \<and> (separate_paths (map (\<lambda>cv. split_on CHR ''.'' (fst cv)) pairs) \<longrightarrow>
            list_all (\<lambda>cv. reduce_path (JObj (write_all [] pairs))
                             (split_on CHR ''.'' (fst cv)) = Inr (snd cv)) pairs)"
proof (intro conjI impI)
  from remap_forEach_resolved [OF assms(3)]
  have "remap_forEach response flats [] = Inr (write_all [] pairs)" .
  with assms(1,2) show "fst (mutate tables tbm gql_run params) =
      Return (Ok (JObj (write_all [] pairs)))"
    by (simp add: mutate_def)
next
  assume sep: "separate_paths (map (\<lambda>cv. split_on CHR ''.'' (fst cv)) pairs)"
  show "list_all (\<lambda>cv. reduce_path (JObj (write_all [] pairs))
                             (split_on CHR ''.'' (fst cv)) = Inr (snd cv)) pairs"
    unfolding list_all_iff
  proof
    fix cv assume "cv \<in> set pairs"
    then have "(fst cv, snd cv) \<in> set pairs" by simp
    from write_all_reads_back [OF sep this]
    show "reduce_path (JObj (write_all [] pairs)) (split_on CHR ''.'' (fst cv)) = Inr (snd cv)"
      by (rule obj_at_reduce_path)
  qed
qed

lemma example_write_user:
  "write_all [] [(''user.insert'', v)] = [(''user'', JObj [(''insert'', v)])]"
  by (simp add: write_all_def objectFromPath_def obj_set_def is_array_index_def is_digit_def)

theorem mutate_remaps_witness:
  "fst (mutate [(''user'', user_table)] example_mutation_builder insert_user_transport
         [(''user'', ())]) =
     Return (Ok (JObj [(''user'', JObj [(''insert'', JArr [JObj [(''id'', JNum 1)]])])]))
 \<and> reduce_path (JObj [(''user'', JObj [(''insert'', JArr [JObj [(''id'', JNum 1)]])])])
       [''user'', ''insert''] = Inr (JArr [JObj [(''id'', JNum 1)]])"
proof -
  have g: "insert_user_transport q vars = Inr insert_user_response" for q vars
    by (simp add: insert_user_transport_def)
  have r: "list_all2 (resolves insert_user_response)
      [[(''user.insert'', ''insert_user.returning'')]]
      [(''user.insert'', JArr [JObj [(''id'', JNum 1)]])]"
    by (simp add: resolves_def insert_user_response_def)
  have s: "separate_paths (map (\<lambda>cv. split_on CHR ''.'' (fst cv))
      [(''user.insert'', JArr [JObj [(''id'', JNum 1)]])])"
    by simp
  have p: "split_on CHR ''.'' ''user.insert'' = [''user'', ''insert'']" by simp
  note inst = mutate_remaps [OF example_buildMutation_user g r]
  from inst [THEN conjunct1]
  have 1: "fst (mutate [(''user'', user_table)] example_mutation_builder insert_user_transport
         [(''user'', ())]) =
     Return (Ok (JObj [(''user'', JObj [(''insert'', JArr [JObj [(''id'', JNum 1)]])])]))"
    unfolding example_write_user .
  from inst [THEN conjunct2, THEN mp, OF s]
  have 2: "reduce_path (JObj [(''user'', JObj [(''insert'', JArr [JObj [(''id'', JNum 1)]])])])
       [''user'', ''insert''] = Inr (JArr [JObj [(''id'', JNum 1)]])"
    unfolding example_write_user by (simp add: p)
  from 1 2 show ?thesis by (intro conjI)
qed

subsection \<open>Responses that miss a segment\<close>




end
